theory Spec2Isabelle
  imports Main "HOL-Library.Word"
begin

unbundle bit_operations_syntax

section \<open>Errors: kit/distributedlock/error.go and kit/errors\<close>

text \<open>
  Go error values. \<open>ErrAcquiredLock\<close> is the constant of package dlock,
  \<open>Canceled\<close> and \<open>DeadlineExceeded\<close> are the two termination errors of package context,
  \<open>StoreError m\<close> is an error with message \<open>m\<close> reported by database/sql or the driver,
  and \<open>Wrapped message err\<close> is the value built by \<^verbatim>\<open>fmt.Errorf("%s: %w", message, err)\<close>.
  A nil error is \<open>None\<close> of \<open>error option\<close>.
\<close>

datatype error =
    ErrAcquiredLock
  | Canceled
  | DeadlineExceeded
  | StoreError string
  | Wrapped string error

text \<open>The method \<^verbatim>\<open>Error() string\<close>.\<close>

fun Error :: "error \<Rightarrow> string" where
  "Error ErrAcquiredLock = ''failed to acquired lock''"
| "Error Canceled = ''context canceled''"
| "Error DeadlineExceeded = ''context deadline exceeded''"
| "Error (StoreError m) = m"
| "Error (Wrapped message err) = message @ '': '' @ Error err"

text \<open>\<^verbatim>\<open>errors.Wrap\<close>: nil stays nil, any other error is annotated.\<close>

fun Wrap :: "error option \<Rightarrow> string \<Rightarrow> error option" where
  "Wrap None message = None"
| "Wrap (Some err) message = Some (Wrapped message err)"

text \<open>\<^verbatim>\<open>errors.Wrapf\<close> with the format already expanded to \<open>msg\<close>.\<close>

definition Wrapf :: "error option \<Rightarrow> string \<Rightarrow> error option" where
  "Wrapf err msg = Wrap err msg"

text \<open>\<^verbatim>\<open>errors.Is\<close>: the target is matched along the chain of wrapped errors.\<close>

fun Is :: "error \<Rightarrow> error \<Rightarrow> bool" where
  "Is (Wrapped message err) target = (Wrapped message err = target \<or> Is err target)"
| "Is err target = (err = target)"

section \<open>Key derivation: \<^verbatim>\<open>hash\<close> in kit/distributedlock/sql/dlock.go\<close>

text \<open>
  The 64-bit FNV-1a hasher of the Go library (hash/fnv): \<open>fnv_New64a\<close> is the offset
  basis, \<open>fnv_Write\<close> folds each byte in with xor and then a multiplication by the prime,
  both modulo \<open>2 ^ 64\<close>, and reports no error. The key is the same 64 bits read as int64
  (\<open>sint\<close>).
\<close>

definition fnv_New64a :: "64 word" where
  "fnv_New64a = 14695981039346656037"

definition fnv_prime64 :: "64 word" where
  "fnv_prime64 = 1099511628211"

fun fnv_Write :: "64 word \<Rightarrow> string \<Rightarrow> 64 word \<times> error option" where
  "fnv_Write h [] = (h, None)"
| "fnv_Write h (c # cs) = fnv_Write ((h XOR of_char c) * fnv_prime64) cs"

definition hash :: "string \<Rightarrow> error + 64 word" where
  "hash inp =
     (case fnv_Write fnv_New64a inp of
        (hashed, Some err) \<Rightarrow>
          (case Wrapf (Some err) (''failed to hash value '' @ inp) of
             Some e \<Rightarrow> Inl e
           | None \<Rightarrow> Inr 0)
      | (hashed, None) \<Rightarrow> Inr hashed)"

section \<open>Contexts\<close>

text \<open>
  A context is \<^verbatim>\<open>context.TODO()\<close>, which is never done, or is derived from a parent by
  \<^verbatim>\<open>context.WithCancel\<close>. Given the contexts whose cancel function has been called, a
  context is done when it or one of its ancestors is among them. Two contexts derived
  from the same parent are not told apart.
\<close>

datatype ctx = TODO | WithCancel ctx

fun ctx_done :: "ctx list \<Rightarrow> ctx \<Rightarrow> bool" where
  "ctx_done cs TODO = False"
| "ctx_done cs (WithCancel p) = (WithCancel p \<in> set cs \<or> ctx_done cs p)"

section \<open>The backing store\<close>

text \<open>
  The store is PostgreSQL behind database/sql, outside the repository. It is modelled
  from the collaborator contract of the specification (sections 1 and 6): sessions are
  transactions, an advisory lock is keyed by a 64-bit integer, belongs to one session and
  is given up when that session ends; the try-acquire never waits.

  \<open>faults\<close> is the list of outcomes the environment imposes on the coming calls, one
  entry per call, in order: \<open>Some e\<close> makes the call fail with \<open>e\<close>, \<open>None\<close> (and
  an exhausted list) lets it run. \<open>calls\<close> records every call made to the store.

  database/sql takes a context with \<^verbatim>\<open>BeginTxx\<close> and with every query. A call made with
  a context that is done fails with the error of the context. The context given to
  \<^verbatim>\<open>BeginTxx\<close> stays with the transaction: \<open>begun\<close> records it for each session, and when
  that context is cancelled the library rolls the transaction back. \<open>cancelled\<close> lists the
  contexts whose cancel function has been called.
\<close>

type_synonym session = nat

datatype call =
    CBeginTxx
  | CTryAdvisoryXactLock session "64 word"
  | CSelectTrue session
  | CRollback session

record store =
  live :: "session list"
  advisory :: "64 word \<rightharpoonup> session"
  fresh :: session
  faults :: "error option list"
  calls :: "call list"
  begun :: "(session \<times> ctx) list"
  cancelled :: "ctx list"

definition receive :: "call \<Rightarrow> store \<Rightarrow> error option \<times> store" where
  "receive c st =
     (case faults st of
        [] \<Rightarrow> (None, st\<lparr>calls := calls st @ [c]\<rparr>)
      | f # fs \<Rightarrow> (f, st\<lparr>faults := fs, calls := calls st @ [c]\<rparr>))"

text \<open>\<^verbatim>\<open>ctx.Err()\<close>: nil until the context is done.\<close>

definition ctx_Err :: "ctx \<Rightarrow> store \<Rightarrow> error option" where
  "ctx_Err c st = (if ctx_done (cancelled st) c then Some Canceled else None)"

text \<open>A call that carries a context: it fails with the context's error when that is done.\<close>

definition receive_ctx :: "ctx \<Rightarrow> call \<Rightarrow> store \<Rightarrow> error option \<times> store" where
  "receive_ctx c cl st =
     (case ctx_Err c st of
        Some e \<Rightarrow> (Some e, st\<lparr>calls := calls st @ [cl]\<rparr>)
      | None \<Rightarrow> receive cl st)"

text \<open>\<^verbatim>\<open>db.BeginTxx(ctx, ..)\<close>: a new session, begun with \<open>c\<close>, or the error.\<close>

definition BeginTxx :: "ctx \<Rightarrow> store \<Rightarrow> (error + session) \<times> store" where
  "BeginTxx c st =
     (case receive_ctx c CBeginTxx st of
        (Some e, st1) \<Rightarrow> (Inl e, st1)
      | (None, st1) \<Rightarrow>
          (Inr (fresh st1),
           st1\<lparr>live := fresh st1 # live st1, fresh := Suc (fresh st1),
               begun := (fresh st1, c) # begun st1\<rparr>))"

text \<open>
  \<^verbatim>\<open>tx.GetContext(ctx, .., "SELECT pg_try_advisory_xact_lock($1) ..", key)\<close> in session
  \<open>t\<close>: true when the key is free (the session takes it) or already owned by \<open>t\<close>,
  false when another session owns it.
\<close>

definition try_advisory_xact_lock ::
  "ctx \<Rightarrow> session \<Rightarrow> 64 word \<Rightarrow> store \<Rightarrow> (error + bool) \<times> store" where
  "try_advisory_xact_lock c t k st =
     (case receive_ctx c (CTryAdvisoryXactLock t k) st of
        (Some e, st1) \<Rightarrow> (Inl e, st1)
      | (None, st1) \<Rightarrow>
          (if t \<notin> set (live st1) then (Inl (StoreError ''sql: transaction has already been committed or rolled back''), st1)
           else (case advisory st1 k of
                   None \<Rightarrow> (Inr True, st1\<lparr>advisory := (advisory st1)(k \<mapsto> t)\<rparr>)
                 | Some owner \<Rightarrow> (Inr (owner = t), st1))))"

text \<open>
  \<^verbatim>\<open>tx.GetContext(ctx, .., "SELECT TRUE as succeed")\<close> in session \<open>t\<close>: succeeds when the
  call goes through and the session is still open.
\<close>

definition select_true :: "ctx \<Rightarrow> session \<Rightarrow> store \<Rightarrow> error option \<times> store" where
  "select_true c t st =
     (case receive_ctx c (CSelectTrue t) st of
        (Some e, st1) \<Rightarrow> (Some e, st1)
      | (None, st1) \<Rightarrow>
          (if t \<in> set (live st1) then (None, st1)
           else (Some (StoreError ''sql: transaction has already been committed or rolled back''), st1)))"

text \<open>
  \<^verbatim>\<open>tx.Rollback()\<close>, which takes no context: the session ends and its advisory locks are
  given up, whatever is reported to the caller.
\<close>

definition end_session :: "session \<Rightarrow> store \<Rightarrow> store" where
  "end_session t st =
     st\<lparr>live := removeAll t (live st),
        advisory := (\<lambda>k. if advisory st k = Some t then None else advisory st k)\<rparr>"

definition Rollback :: "session \<Rightarrow> store \<Rightarrow> error option \<times> store" where
  "Rollback t st =
     (case receive (CRollback t) st of
        (Some e, st1) \<Rightarrow> (Some e, end_session t st1)
      | (None, st1) \<Rightarrow>
          (if t \<in> set (live st1) then (None, end_session t st1)
           else (Some (StoreError ''sql: transaction has already been committed or rolled back''), st1)))"


section \<open>The lock handle: kit/distributedlock/sql/dlock.go\<close>

text \<open>
  The struct \<^verbatim>\<open>Lock\<close>: \<open>tx\<close> is the transaction that holds the lock, \<open>None\<close> for nil;
  \<open>lock_value\<close> is the field \<^verbatim>\<open>value\<close>, the derived key. The field \<^verbatim>\<open>db\<close> is the
  store argument of every operation. The mutex makes each exported method one
  indivisible step on the handle, which is what a function of this model is. \<open>c\<close> is
  the context the method is called with.
\<close>

record sql_Lock =
  tx :: "session option"
  lock_value :: "64 word"

definition DistributedLock_New :: "string \<Rightarrow> error + sql_Lock" where
  "DistributedLock_New v =
     (case hash v of
        Inl err \<Rightarrow> Inl err
      | Inr hashedValue \<Rightarrow> Inr \<lparr>tx = None, lock_value = hashedValue\<rparr>)"

definition release :: "sql_Lock \<Rightarrow> store \<Rightarrow> error option \<times> sql_Lock \<times> store" where
  "release l st =
     (case tx l of
        Some t \<Rightarrow> (case Rollback t st of (err, st1) \<Rightarrow> (err, l\<lparr>tx := None\<rparr>, st1))
      | None \<Rightarrow> (None, l, st))"

definition isLock :: "ctx \<Rightarrow> sql_Lock \<Rightarrow> store \<Rightarrow> error option \<times> sql_Lock \<times> store" where
  "isLock c l st =
     (case tx l of
        None \<Rightarrow> (Wrap (Some ErrAcquiredLock) ''does not lock the ressource'', l, st)
      | Some t \<Rightarrow>
          (case select_true c t st of
             (Some err, st1) \<Rightarrow>
               (case release l st1 of
                  (Some rerr, l1, st2) \<Rightarrow> (Wrap (Some ErrAcquiredLock) (Error rerr), l1, st2)
                | (None, l1, st2) \<Rightarrow> (Some ErrAcquiredLock, l1, st2))
           | (None, st1) \<Rightarrow> (None, l, st1)))"

definition sql_Lock_IsLock ::
  "ctx \<Rightarrow> sql_Lock \<Rightarrow> store \<Rightarrow> error option \<times> sql_Lock \<times> store" where
  "sql_Lock_IsLock c l st = isLock c l st"

definition sql_Lock_Release :: "sql_Lock \<Rightarrow> store \<Rightarrow> error option \<times> sql_Lock \<times> store" where
  "sql_Lock_Release l st = release l st"

text \<open>
  \<^verbatim>\<open>Lock.Lock\<close>. In the branch where the try-acquire answered false, \<^verbatim>\<open>err\<close> is the
  nil error of the query that has just succeeded, and that is what the source hands to
  \<^verbatim>\<open>errors.Wrap\<close> when the rollback fails.
\<close>

definition sql_Lock_Lock ::
  "ctx \<Rightarrow> sql_Lock \<Rightarrow> store \<Rightarrow> error option \<times> sql_Lock \<times> store" where
  "sql_Lock_Lock c l st =
     (case tx l of
        None \<Rightarrow>
          (case BeginTxx c st of
             (Inl err, st1) \<Rightarrow> (Some err, l, st1)
           | (Inr t, st1) \<Rightarrow>
               (case try_advisory_xact_lock c t (lock_value l) st1 of
                  (Inl err, st2) \<Rightarrow>
                    (case Rollback t st2 of
                       (Some rollbackErr, st3) \<Rightarrow> (Wrap (Some err) (Error rollbackErr), l, st3)
                     | (None, st3) \<Rightarrow> (Wrap (Some err) ''failed to get lock status'', l, st3))
                | (Inr succeed, st2) \<Rightarrow>
                    (if \<not> succeed then
                       (case Rollback t st2 of
                          (Some rollbackErr, st3) \<Rightarrow> (Wrap None (Error rollbackErr), l, st3)
                        | (None, st3) \<Rightarrow> (Some ErrAcquiredLock, l, st3))
                     else (None, l\<lparr>tx := Some t\<rparr>, st2))))
      | Some t \<Rightarrow> isLock c l st)"

section \<open>The interface and its helpers: kit/distributedlock/dlock.go\<close>

text \<open>
  The interface \<^verbatim>\<open>Lock\<close> of package dlock: three methods on some state \<open>'s\<close> (for the
  SQL lock, the handle together with the store). \<^verbatim>\<open>Lock\<close> and \<^verbatim>\<open>IsLock\<close> take a
  context, \<^verbatim>\<open>Release\<close> takes none.
\<close>

record 's dlock_Lock =
  Lock :: "ctx \<Rightarrow> 's \<Rightarrow> error option \<times> 's"
  IsLock :: "ctx \<Rightarrow> 's \<Rightarrow> error option \<times> 's"
  Release :: "'s \<Rightarrow> error option \<times> 's"

text \<open>
  Both helpers loop on a \<^verbatim>\<open>select\<close> over the context's Done channel and a ticker. A
  schedule lists, iteration by iteration, the case the select executes. A schedule that
  runs out leaves the loop blocked in its select: no result yet.
\<close>

datatype select_case = CaseDone | CaseTick

text \<open>
  \<^verbatim>\<open>WaitForLock\<close>. \<open>c\<close> is its context, handed to every \<^verbatim>\<open>l.Lock\<close>, and \<open>ctxErr\<close>
  is the value of \<^verbatim>\<open>ctx.Err()\<close> once Done is closed, which package context keeps non-nil
  (cancellation or a deadline). The result is the returned error (\<open>None\<close> while still
  waiting, \<open>Some None\<close> for nil), the number of \<^verbatim>\<open>l.Lock\<close> calls made, and the state.
\<close>

fun WaitForLock ::
  "ctx \<Rightarrow> error \<Rightarrow> 's dlock_Lock \<Rightarrow> select_case list \<Rightarrow> 's
     \<Rightarrow> error option option \<times> nat \<times> 's" where
  "WaitForLock c ctxErr l [] s = (None, 0, s)"
| "WaitForLock c ctxErr l (CaseDone # sched) s =
     (Some (Wrap (Some ctxErr) ''timeout to acquired lock''), 0, s)"
| "WaitForLock c ctxErr l (CaseTick # sched) s =
     (case Lock l c s of
        (Some err, s1) \<Rightarrow>
          (case WaitForLock c ctxErr l sched s1 of (r, n, s2) \<Rightarrow> (r, Suc n, s2))
      | (None, s1) \<Rightarrow> (Some None, Suc 0, s1))"






text \<open>The SQL lock as an implementation of the interface.\<close>

definition sql_iface :: "(sql_Lock \<times> store) dlock_Lock" where
  "sql_iface =
     \<lparr>Lock = (\<lambda>c (l, st). case sql_Lock_Lock c l st of (e, l1, st1) \<Rightarrow> (e, (l1, st1))),
      IsLock = (\<lambda>c (l, st). case sql_Lock_IsLock c l st of (e, l1, st1) \<Rightarrow> (e, (l1, st1))),
      Release = (\<lambda>(l, st). case sql_Lock_Release l st of (e, l1, st1) \<Rightarrow> (e, (l1, st1)))\<rparr>"

section \<open>Predicates on handle and store\<close>

text \<open>The handle owns a session that is open and owns the advisory lock of its key.\<close>

definition holds :: "sql_Lock \<Rightarrow> store \<Rightarrow> bool" where
  "holds a st =
     (case tx a of
        None \<Rightarrow> False
      | Some t \<Rightarrow> t \<in> set (live st) \<and> advisory st (lock_value a) = Some t)"

text \<open>Session identifiers handed out so far are below the next one.\<close>

definition wf_store :: "store \<Rightarrow> bool" where
  "wf_store st = list_all (\<lambda>t. t < fresh st) (live st)"

text \<open>None of the next \<open>n\<close> entries of the fault list makes a call fail.\<close>

definition no_fault :: "nat \<Rightarrow> store \<Rightarrow> bool" where
  "no_fault n st = list_all (\<lambda>f. f = None) (take n (faults st))"

section \<open>The scenario of the test suite\<close>

definition key_mylock :: "64 word" where
  "key_mylock = 5745039872434889948"

definition store0 :: store where
  "store0 = \<lparr>live = [], advisory = Map.empty, fresh = 0, faults = [], calls = [],
     begun = [], cancelled = []\<rparr>"

definition handle0 :: sql_Lock where
  "handle0 = \<lparr>tx = None, lock_value = key_mylock\<rparr>"

text \<open>
  The first handle on \<open>''mylock''\<close> after its \<^verbatim>\<open>Lock\<close> with \<^verbatim>\<open>context.TODO()\<close>, and
  the store then.
\<close>

definition handleA :: sql_Lock where
  "handleA = \<lparr>tx = Some 0, lock_value = key_mylock\<rparr>"

definition storeA :: store where
  "storeA = \<lparr>live = [0], advisory = [key_mylock \<mapsto> 0], fresh = 1, faults = [],
     calls = [CBeginTxx, CTryAdvisoryXactLock 0 key_mylock],
     begun = [(0, TODO)], cancelled = []\<rparr>"

text \<open>
  The same after \<^verbatim>\<open>Lock\<close> with a context \<open>ctxP\<close> that can be cancelled, as when
  \<^verbatim>\<open>ContextLock\<close> is given \<open>ctxP\<close>.
\<close>

definition ctxP :: ctx where
  "ctxP = WithCancel TODO"

definition storeP :: store where
  "storeP = \<lparr>live = [0], advisory = [key_mylock \<mapsto> 0], fresh = 1, faults = [],
     calls = [CBeginTxx, CTryAdvisoryXactLock 0 key_mylock],
     begun = [(0, ctxP)], cancelled = []\<rparr>"

text \<open>A lock that is always free, and one that is always held elsewhere, on a unit state.\<close>

definition free_lock :: "unit dlock_Lock" where
  "free_lock =
     \<lparr>Lock = (\<lambda>c s. (None, s)), IsLock = (\<lambda>c s. (None, s)), Release = (\<lambda>s. (None, s))\<rparr>"

definition held_lock :: "unit dlock_Lock" where
  "held_lock =
     \<lparr>Lock = (\<lambda>c s. (Some ErrAcquiredLock, s)),
      IsLock = (\<lambda>c s. (Some (Wrapped ''does not lock the ressource'' ErrAcquiredLock), s)),
      Release = (\<lambda>s. (None, s))\<rparr>"

section \<open>Facts about the store operations\<close>

lemma fnv_Write_no_error: "snd (fnv_Write h v) = None"
  by (induction v arbitrary: h) simp_all

lemma hash_total: "hash v = Inr (fst (fnv_Write fnv_New64a v))"
  using fnv_Write_no_error [of fnv_New64a v]
  by (cases "fnv_Write fnv_New64a v") (simp add: hash_def)

lemma hash_mylock: "hash ''mylock'' = Inr key_mylock"
  by (simp add: hash_total fnv_New64a_def fnv_prime64_def key_mylock_def)

lemma scenario_reached: "sql_Lock_Lock TODO handle0 store0 = (None, handleA, storeA)"
  by (simp add: sql_Lock_Lock_def BeginTxx_def try_advisory_xact_lock_def receive_def
      receive_ctx_def ctx_Err_def handle0_def store0_def handleA_def storeA_def)

lemma scenario_ctxP: "sql_Lock_Lock ctxP handle0 store0 = (None, handleA, storeP)"
  by (simp add: sql_Lock_Lock_def BeginTxx_def try_advisory_xact_lock_def receive_def
      receive_ctx_def ctx_Err_def handle0_def store0_def handleA_def storeP_def ctxP_def)

section \<open>The key of a handle\<close>

lemma release_lock_value: "release l st = (e, l1, st1) \<Longrightarrow> lock_value l1 = lock_value l"
  by (auto simp: release_def split: option.splits prod.splits)

lemma isLock_lock_value:
  "isLock c l st = (e, l1, st1) \<Longrightarrow> lock_value l1 = lock_value l"
  by (auto simp: isLock_def split: option.splits prod.splits dest: release_lock_value)

lemma Lock_lock_value:
  "sql_Lock_Lock c l st = (e, l1, st1) \<Longrightarrow> lock_value l1 = lock_value l"
  by (auto simp: sql_Lock_Lock_def split: option.splits prod.splits sum.splits if_splits
      dest: isLock_lock_value)

text \<open>
  C9. The key is a function of the resource name alone: equal names give equal keys, on
  any two calls, and the derivation never fails. \<^verbatim>\<open>DistributedLock.New\<close> computes it once
  and puts it in a handle that holds no session; \<^verbatim>\<open>Lock\<close>, \<^verbatim>\<open>IsLock\<close> and
  \<^verbatim>\<open>Release\<close> leave the key of the handle as it is, whatever the context and whatever
  the store answers.
\<close>

theorem key_derivation_deterministic:
  "(name1 = name2 \<longrightarrow> hash name1 = hash name2)
   \<and> (\<exists>k. hash name = Inr k \<and> DistributedLock_New name = Inr \<lparr>tx = None, lock_value = k\<rparr>)
   \<and> lock_value (fst (snd (sql_Lock_Lock c l st))) = lock_value l
   \<and> lock_value (fst (snd (sql_Lock_IsLock c l st))) = lock_value l
   \<and> lock_value (fst (snd (sql_Lock_Release l st))) = lock_value l"
proof -
  have "lock_value (fst (snd (sql_Lock_Lock c l st))) = lock_value l"
    by (cases "sql_Lock_Lock c l st") (auto dest: Lock_lock_value)
  moreover have "lock_value (fst (snd (sql_Lock_IsLock c l st))) = lock_value l"
    by (cases "isLock c l st") (auto simp: sql_Lock_IsLock_def dest: isLock_lock_value)
  moreover have "lock_value (fst (snd (sql_Lock_Release l st))) = lock_value l"
    by (cases "release l st") (auto simp: sql_Lock_Release_def dest: release_lock_value)
  ultimately show ?thesis
    by (simp add: hash_total DistributedLock_New_def)
qed

theorem key_derivation_deterministic_witness:
  "hash ''mylock'' = hash ''mylock''
   \<and> DistributedLock_New ''mylock'' = Inr handle0
   \<and> lock_value (fst (snd (sql_Lock_Lock TODO handle0 store0))) = key_mylock
   \<and> lock_value (fst (snd (sql_Lock_Release handleA storeA))) = key_mylock"
  using key_derivation_deterministic [of "''mylock''" "''mylock''" "''mylock''" TODO handle0 store0]
    key_derivation_deterministic [of "''mylock''" "''mylock''" "''mylock''" TODO handleA storeA]
  by (simp add: hash_mylock handle0_def handleA_def)

section \<open>Release\<close>

text \<open>
  C3. On a handle without session \<^verbatim>\<open>Release\<close> changes nothing, calls nothing and returns
  nil. On a handle with session \<open>t\<close> it rolls \<open>t\<close> back, returns what the rollback
  returned and leaves the handle without session, also when the rollback failed. So the
  handle is without session after every \<^verbatim>\<open>Release\<close>, and a second \<^verbatim>\<open>Release\<close> right
  after it returns nil and changes nothing.
\<close>

theorem release_idempotent:
  "(tx l = None \<longrightarrow> sql_Lock_Release l st = (None, l, st))
   \<and> (\<forall>t. tx l = Some t \<longrightarrow>
         sql_Lock_Release l st = (fst (Rollback t st), l\<lparr>tx := None\<rparr>, snd (Rollback t st)))
   \<and> tx (fst (snd (sql_Lock_Release l st))) = None
   \<and> (case sql_Lock_Release l st of
         (err, l1, st1) \<Rightarrow> sql_Lock_Release l1 st1 = (None, l1, st1))"
  by (cases "tx l") (auto simp: sql_Lock_Release_def release_def split: prod.splits)

theorem release_idempotent_witness:
  "sql_Lock_Release handle0 store0 = (None, handle0, store0)
   \<and> fst (sql_Lock_Release handleA (storeA\<lparr>faults := [Some (StoreError ''driver: bad connection'')]\<rparr>))
       = Some (StoreError ''driver: bad connection'')
   \<and> tx (fst (snd (sql_Lock_Release handleA
         (storeA\<lparr>faults := [Some (StoreError ''driver: bad connection'')]\<rparr>)))) = None"
  using release_idempotent [of handle0 store0]
    release_idempotent [of handleA "storeA\<lparr>faults := [Some (StoreError ''driver: bad connection'')]\<rparr>"]
  by (simp add: handle0_def handleA_def storeA_def Rollback_def receive_def receive_ctx_def ctx_Err_def)

section \<open>The liveness check\<close>

lemma select_true_calls:
  "select_true c t st = (e, st1) \<Longrightarrow>
     calls st1 = calls st @ [CSelectTrue t] \<and> live st1 = live st \<and> advisory st1 = advisory st
     \<and> fresh st1 = fresh st"
  by (auto simp: select_true_def receive_def receive_ctx_def ctx_Err_def
      split: list.splits option.splits if_splits)

lemma Rollback_calls:
  "Rollback t st = (e, st1) \<Longrightarrow>
     calls st1 = calls st @ [CRollback t] \<and> t \<notin> set (live st1) \<and> fresh st1 = fresh st"
  by (auto simp: Rollback_def receive_def end_session_def
      split: list.splits option.splits if_splits)

lemma isLock_alive:
  "tx l = Some t \<Longrightarrow> fst (select_true c t st) = None \<Longrightarrow>
     isLock c l st = (None, l, snd (select_true c t st))"
  by (cases "select_true c t st") (simp add: isLock_def)

lemma isLock_lost:
  assumes "tx l = Some t" and "select_true c t st = (Some e, st1)"
  shows "isLock c l st =
     ((case fst (Rollback t st1) of
         None \<Rightarrow> Some ErrAcquiredLock
       | Some rerr \<Rightarrow> Some (Wrapped (Error rerr) ErrAcquiredLock)),
      l\<lparr>tx := None\<rparr>, snd (Rollback t st1))"
  using assms
  by (cases "Rollback t st1") (auto simp: isLock_def release_def split: option.splits)

text \<open>
  C4. \<^verbatim>\<open>IsLock\<close> returns nil only if the handle has a session and the probe on it
  succeeds, and then it does return nil and leaves the handle alone. If the probe fails,
  the session is rolled back and the handle has no session when the error, which matches
  \<open>ErrAcquiredLock\<close>, comes back. Without a session the store is not called (the store is
  returned as it was) and the error is \<open>ErrAcquiredLock\<close> annotated with
  "does not lock the ressource".
\<close>

theorem IsLock_contract:
  "(fst (sql_Lock_IsLock c l st) = None \<longrightarrow>
      (\<exists>t. tx l = Some t \<and> fst (select_true c t st) = None))
   \<and> (\<forall>t. tx l = Some t \<and> fst (select_true c t st) = None \<longrightarrow>
         sql_Lock_IsLock c l st = (None, l, snd (select_true c t st)))
   \<and> (\<forall>t. tx l = Some t \<and> fst (select_true c t st) \<noteq> None \<longrightarrow>
         (case sql_Lock_IsLock c l st of
            (err, l1, st1) \<Rightarrow>
              (\<exists>e. err = Some e \<and> Is e ErrAcquiredLock) \<and> tx l1 = None
              \<and> calls st1 = calls st @ [CSelectTrue t, CRollback t]
              \<and> t \<notin> set (live st1)))
   \<and> (tx l = None \<longrightarrow>
         sql_Lock_IsLock c l st =
           (Some (Wrapped ''does not lock the ressource'' ErrAcquiredLock), l, st))"
proof -
  have lost: "case isLock c l st of
      (err, l1, st1) \<Rightarrow>
        (\<exists>e. err = Some e \<and> Is e ErrAcquiredLock) \<and> tx l1 = None
        \<and> calls st1 = calls st @ [CSelectTrue t, CRollback t] \<and> t \<notin> set (live st1)"
    if t: "tx l = Some t" and f: "fst (select_true c t st) \<noteq> None" for t
  proof -
    obtain e st1 where p: "select_true c t st = (Some e, st1)"
      using f by (cases "select_true c t st") auto
    obtain r st2 where r: "Rollback t st1 = (r, st2)"
      by (cases "Rollback t st1") auto
    show ?thesis
      using select_true_calls [OF p] Rollback_calls [OF r] r
      by (simp add: isLock_lost [OF t p] split: option.splits)
  qed
  have nil: "\<exists>t. tx l = Some t \<and> fst (select_true c t st) = None"
    if n: "fst (isLock c l st) = None"
  proof (cases "tx l")
    case None
    with n show ?thesis by (simp add: isLock_def)
  next
    case (Some t)
    show ?thesis
    proof (cases "fst (select_true c t st)")
      case None
      with Some show ?thesis by simp
    next
      case (Some e)
      with lost [OF \<open>tx l = Some t\<close>] n show ?thesis
        by (auto split: prod.splits)
    qed
  qed
  show ?thesis
    using nil lost by (auto simp: sql_Lock_IsLock_def isLock_alive) (simp add: isLock_def)
qed

theorem IsLock_contract_witness:
  "sql_Lock_IsLock TODO handleA storeA = (None, handleA, storeA\<lparr>calls := calls storeA @ [CSelectTrue 0]\<rparr>)
   \<and> fst (sql_Lock_IsLock TODO handleA (storeA\<lparr>faults := [Some (StoreError ''driver: bad connection'')]\<rparr>))
       = Some ErrAcquiredLock
   \<and> tx (fst (snd (sql_Lock_IsLock TODO handleA
         (storeA\<lparr>faults := [Some (StoreError ''driver: bad connection'')]\<rparr>)))) = None
   \<and> sql_Lock_IsLock TODO handle0 store0
       = (Some (Wrapped ''does not lock the ressource'' ErrAcquiredLock), handle0, store0)"
  using IsLock_contract [of TODO handleA storeA]
    IsLock_contract [of TODO handleA "storeA\<lparr>faults := [Some (StoreError ''driver: bad connection'')]\<rparr>"]
    IsLock_contract [of TODO handle0 store0]
  by (simp add: sql_Lock_IsLock_def isLock_def release_def select_true_def Rollback_def
      receive_def receive_ctx_def ctx_Err_def handle0_def handleA_def storeA_def store0_def)

section \<open>Lock on a handle that already has a session\<close>

text \<open>
  C5, as the source has it. With a session \<open>t\<close> on the handle, \<^verbatim>\<open>Lock\<close> is the liveness
  check and nothing more: the store receives the probe, and the rollback when the probe
  failed; no session is opened and no try-acquire is run, so nothing is retried. A live
  session gives nil and the handle is unchanged. A lost one leaves the handle without
  session and gives \<open>ErrAcquiredLock\<close>: bare when the rollback succeeded, annotated with
  the rollback's message when it failed. The probe's own error is not reported.
\<close>

theorem Lock_reentrant:
  assumes "tx l = Some t"
  shows "sql_Lock_Lock c l st = sql_Lock_IsLock c l st
    \<and> (case sql_Lock_Lock c l st of
         (err, l1, st1) \<Rightarrow>
           fresh st1 = fresh st
           \<and> (fst (select_true c t st) = None \<longrightarrow>
                err = None \<and> l1 = l \<and> calls st1 = calls st @ [CSelectTrue t])
           \<and> (fst (select_true c t st) \<noteq> None \<longrightarrow>
                tx l1 = None \<and> calls st1 = calls st @ [CSelectTrue t, CRollback t]
                \<and> err = (case fst (Rollback t (snd (select_true c t st))) of
                           None \<Rightarrow> Some ErrAcquiredLock
                         | Some rerr \<Rightarrow> Some (Wrapped (Error rerr) ErrAcquiredLock))))"
proof -
  have eq: "sql_Lock_Lock c l st = isLock c l st"
    using assms by (simp add: sql_Lock_Lock_def)
  obtain p st1 where p: "select_true c t st = (p, st1)"
    by (cases "select_true c t st") auto
  obtain r st2 where r: "Rollback t st1 = (r, st2)"
    by (cases "Rollback t st1") auto
  show ?thesis
  proof (cases p)
    case None
    then show ?thesis
      using assms p select_true_calls [OF p] isLock_alive [of l t c st]
      by (simp add: eq sql_Lock_IsLock_def)
  next
    case (Some e)
    then show ?thesis
      using assms p r select_true_calls [OF p] Rollback_calls [OF r] isLock_lost [of l t c st e st1]
      by (simp add: eq sql_Lock_IsLock_def)
  qed
qed

theorem Lock_reentrant_witness:
  "sql_Lock_Lock TODO handleA storeA = (None, handleA, storeA\<lparr>calls := calls storeA @ [CSelectTrue 0]\<rparr>)
   \<and> sql_Lock_Lock TODO handleA
        (storeA\<lparr>faults := [Some (StoreError ''driver: bad connection''), Some (StoreError ''conn closed'')]\<rparr>)
       = (Some (Wrapped ''conn closed'' ErrAcquiredLock), handle0,
          \<lparr>live = [], advisory = Map.empty, fresh = 1, faults = [],
           calls = [CBeginTxx, CTryAdvisoryXactLock 0 key_mylock, CSelectTrue 0, CRollback 0],
           begun = [(0, TODO)], cancelled = []\<rparr>)"
  using Lock_reentrant [of handleA 0 TODO storeA]
    Lock_reentrant [of handleA 0 TODO
      "storeA\<lparr>faults := [Some (StoreError ''driver: bad connection''), Some (StoreError ''conn closed'')]\<rparr>"]
  by (auto simp: sql_Lock_IsLock_def isLock_def release_def select_true_def Rollback_def
      receive_def receive_ctx_def ctx_Err_def end_session_def handle0_def handleA_def storeA_def)

text \<open>
  The claim as worded fails: when the probe fails and the rollback succeeds, the error
  is \<open>ErrAcquiredLock\<close> itself, with nothing of the store wrapped around it.
\<close>

theorem Lock_reentrant_counterexample:
  "sql_Lock_Lock TODO handleA (storeA\<lparr>faults := [Some (StoreError ''driver: bad connection'')]\<rparr>)
     = (Some ErrAcquiredLock, handle0,
        \<lparr>live = [], advisory = Map.empty, fresh = 1, faults = [],
         calls = [CBeginTxx, CTryAdvisoryXactLock 0 key_mylock, CSelectTrue 0, CRollback 0],
         begun = [(0, TODO)], cancelled = []\<rparr>)
   \<and> Error ErrAcquiredLock = ''failed to acquired lock''"
  by (auto simp: sql_Lock_Lock_def isLock_def release_def select_true_def Rollback_def
      receive_def receive_ctx_def ctx_Err_def end_session_def handle0_def handleA_def storeA_def)

section \<open>Lock on a handle without session, while another handle holds the key\<close>

lemma wf_store_fresh: "wf_store st \<Longrightarrow> t \<in> set (live st) \<Longrightarrow> t < fresh st"
  by (simp add: wf_store_def list_all_iff)

text \<open>
  C1, as the source has it. Handle \<open>a\<close> holds the key: its session is open and owns the
  advisory lock. Handle \<open>b\<close> has the same key and no session. Then \<^verbatim>\<open>Lock\<close> on \<open>b\<close>
  never gives \<open>b\<close> a session and never disturbs what \<open>a\<close> holds, because the store
  answers false to the try-acquire of any other session. When none of the three store
  calls of the attempt fails, the result is \<open>ErrAcquiredLock\<close> itself. When opening the
  session fails the result is that store error, and when the try-acquire query fails the
  result is that store error, annotated. A context that is already done is one way for
  opening the session to fail: the result is then the context's error, and the three
  statements on the fault list are for a context that is not done. Once \<open>a\<close> is released
  the key is free again: \<open>a\<close> holds nothing, and a \<^verbatim>\<open>Lock\<close> on \<open>b\<close> that meets no
  store error succeeds and \<open>b\<close> holds the key.
\<close>

theorem mutual_exclusion_while_held:
  assumes wf: "wf_store st" and h: "holds a st" and b: "tx b = None"
    and k: "lock_value b = lock_value a"
  shows "(case sql_Lock_Lock c b st of
      (err, b1, st1) \<Rightarrow>
        tx b1 = None \<and> holds a st1 \<and> wf_store st1
        \<and> (\<not> ctx_done (cancelled st) c \<longrightarrow>
             (no_fault 3 st \<longrightarrow> err = Some ErrAcquiredLock)
             \<and> (\<forall>e fs. faults st = Some e # fs \<longrightarrow> err = Some e)
             \<and> (\<forall>e fs. faults st = None # Some e # fs \<longrightarrow> (\<exists>m. err = Some (Wrapped m e))))
        \<and> (ctx_done (cancelled st) c \<longrightarrow> err = Some Canceled))
    \<and> (case sql_Lock_Release a st of
      (rerr, a2, st2) \<Rightarrow>
        \<not> holds a2 st2 \<and> wf_store st2
        \<and> (\<not> ctx_done (cancelled st2) c \<and> no_fault 2 st2 \<longrightarrow>
             (case sql_Lock_Lock c b st2 of (err, b3, st3) \<Rightarrow> err = None \<and> holds b3 st3)))"
proof -
  obtain ta where ta: "tx a = Some ta" "ta \<in> set (live st)" "advisory st (lock_value a) = Some ta"
    using h by (auto simp: holds_def split: option.splits)
  have lt: "ta < fresh st" using wf ta(2) by (rule wf_store_fresh)
  have nf: "fresh st \<notin> set (live st)" using wf wf_store_fresh by blast
  have attempt: "case sql_Lock_Lock c b st of
      (err, b1, st1) \<Rightarrow>
        tx b1 = None \<and> holds a st1 \<and> wf_store st1
        \<and> (\<not> ctx_done (cancelled st) c \<longrightarrow>
             (no_fault 3 st \<longrightarrow> err = Some ErrAcquiredLock)
             \<and> (\<forall>e fs. faults st = Some e # fs \<longrightarrow> err = Some e)
             \<and> (\<forall>e fs. faults st = None # Some e # fs \<longrightarrow> (\<exists>m. err = Some (Wrapped m e))))
        \<and> (ctx_done (cancelled st) c \<longrightarrow> err = Some Canceled)"
    using ta lt nf wf b k
    by (auto simp: sql_Lock_Lock_def BeginTxx_def try_advisory_xact_lock_def Rollback_def
        receive_def receive_ctx_def ctx_Err_def end_session_def holds_def wf_store_def
        no_fault_def list_all_iff
        split: list.splits option.splits)
  have released: "case sql_Lock_Release a st of
      (rerr, a2, st2) \<Rightarrow>
        \<not> holds a2 st2 \<and> wf_store st2
        \<and> (\<not> ctx_done (cancelled st2) c \<and> no_fault 2 st2 \<longrightarrow>
             (case sql_Lock_Lock c b st2 of (err, b3, st3) \<Rightarrow> err = None \<and> holds b3 st3))"
    using ta lt nf wf b k
    by (auto simp: sql_Lock_Release_def release_def sql_Lock_Lock_def BeginTxx_def
        try_advisory_xact_lock_def Rollback_def
        receive_def receive_ctx_def ctx_Err_def end_session_def holds_def wf_store_def
        no_fault_def list_all_iff
        split: list.splits option.splits)
  show ?thesis using attempt released by simp
qed

theorem mutual_exclusion_while_held_witness:
  "fst (sql_Lock_Lock TODO handle0 storeA) = Some ErrAcquiredLock
   \<and> tx (fst (snd (sql_Lock_Lock TODO handle0 storeA))) = None
   \<and> holds handleA (snd (snd (sql_Lock_Lock TODO handle0 storeA)))
   \<and> fst (sql_Lock_Lock TODO handle0 (snd (snd (sql_Lock_Release handleA storeA)))) = None"
  using mutual_exclusion_while_held [of storeA handleA handle0 TODO]
  by (auto simp: wf_store_def holds_def no_fault_def handle0_def handleA_def storeA_def
      sql_Lock_Release_def release_def Rollback_def receive_def receive_ctx_def ctx_Err_def
      end_session_def split: prod.splits)

text \<open>
  The claim as worded fails: while \<open>handleA\<close> holds the key, a \<^verbatim>\<open>Lock\<close> on the second
  handle whose \<^verbatim>\<open>BeginTxx\<close> fails returns the store's error, which does not match
  \<open>ErrAcquiredLock\<close>.
\<close>

theorem mutual_exclusion_counterexample:
  "holds handleA (storeA\<lparr>faults := [Some (StoreError ''connection refused'')]\<rparr>)
   \<and> fst (sql_Lock_Lock TODO handle0 (storeA\<lparr>faults := [Some (StoreError ''connection refused'')]\<rparr>))
       = Some (StoreError ''connection refused'')
   \<and> \<not> Is (StoreError ''connection refused'') ErrAcquiredLock"
  by (simp add: holds_def handle0_def handleA_def storeA_def sql_Lock_Lock_def BeginTxx_def
      receive_def receive_ctx_def ctx_Err_def)

text \<open>
  C2 at the input where it fails. \<open>handleA\<close> holds the key, the second handle opens its
  session, the try-acquire answers false, and the rollback of that session reports an
  error. The source then wraps the nil error of the query, so \<^verbatim>\<open>Lock\<close> returns nil,
  while the handle has no session and \<open>handleA\<close> still holds the key.
\<close>

theorem Lock_contended_rollback_error:
  "fst (sql_Lock_Lock TODO handle0
          (storeA\<lparr>faults := [None, None, Some (StoreError ''driver: bad connection'')]\<rparr>)) = None
   \<and> tx (fst (snd (sql_Lock_Lock TODO handle0
          (storeA\<lparr>faults := [None, None, Some (StoreError ''driver: bad connection'')]\<rparr>)))) = None
   \<and> holds handleA (snd (snd (sql_Lock_Lock TODO handle0
          (storeA\<lparr>faults := [None, None, Some (StoreError ''driver: bad connection'')]\<rparr>))))
   \<and> calls (snd (snd (sql_Lock_Lock TODO handle0
          (storeA\<lparr>faults := [None, None, Some (StoreError ''driver: bad connection'')]\<rparr>))))
       = calls storeA @ [CBeginTxx, CTryAdvisoryXactLock 1 key_mylock, CRollback 1]"
  by (simp add: holds_def handle0_def handleA_def storeA_def sql_Lock_Lock_def BeginTxx_def
      try_advisory_xact_lock_def Rollback_def receive_def receive_ctx_def ctx_Err_def
      end_session_def)

section \<open>WaitForLock\<close>

lemma sql_iface_contended: "fst (Lock sql_iface ctxP (handle0, storeA)) = Some ErrAcquiredLock"
  by (simp add: sql_iface_def sql_Lock_Lock_def BeginTxx_def try_advisory_xact_lock_def
      Rollback_def receive_def receive_ctx_def ctx_Err_def end_session_def handle0_def
      storeA_def ctxP_def)

lemma WaitForLock_outcomes:
  "WaitForLock c ctxErr l sched s = (Some r, n, s1) \<Longrightarrow>
     r = None \<or> r = Some (Wrapped ''timeout to acquired lock'' ctxErr)"
  by (induction c ctxErr l sched s arbitrary: n s1 rule: WaitForLock.induct)
     (auto split: prod.splits option.splits)

lemma WaitForLock_returns:
  "CaseDone \<in> set sched \<Longrightarrow> fst (WaitForLock c ctxErr l sched s) \<noteq> None"
  by (induction c ctxErr l sched s rule: WaitForLock.induct)
     (auto split: prod.splits option.splits)

lemma WaitForLock_final:
  "fst (WaitForLock c ctxErr l pre s) \<noteq> None \<Longrightarrow>
     WaitForLock c ctxErr l (pre @ rest) s = WaitForLock c ctxErr l pre s"
  by (induction c ctxErr l pre s rule: WaitForLock.induct)
     (auto split: prod.splits option.splits)

lemma WaitForLock_attempts:
  "fst (snd (WaitForLock c ctxErr l sched s)) \<le> length (takeWhile (\<lambda>x. x = CaseTick) sched)"
  by (induction c ctxErr l sched s rule: WaitForLock.induct)
     (auto split: prod.splits option.splits)

text \<open>
  C6. A tick whose \<^verbatim>\<open>Lock\<close> succeeds ends the wait at once with nil, whatever the rest
  of the schedule. A tick whose \<^verbatim>\<open>Lock\<close> fails is retried: its error is dropped and the
  result is that of the loop from there. When the select takes the Done case the result
  is the context's error wrapped with "timeout to acquired lock". A schedule that contains
  a Done case always gives a result, a result once reached does not depend on what the
  schedule holds after it, and there is no result other than nil and the wrapped context
  error.
\<close>

theorem WaitForLock_two_outcomes:
  "(fst (Lock l c s) = None \<longrightarrow>
      WaitForLock c ctxErr l (CaseTick # sched) s = (Some None, 1, snd (Lock l c s)))
   \<and> (fst (Lock l c s) \<noteq> None \<longrightarrow>
        fst (WaitForLock c ctxErr l (CaseTick # sched) s)
          = fst (WaitForLock c ctxErr l sched (snd (Lock l c s))))
   \<and> WaitForLock c ctxErr l (CaseDone # sched) s
        = (Some (Some (Wrapped ''timeout to acquired lock'' ctxErr)), 0, s)
   \<and> (CaseDone \<in> set sched \<longrightarrow> fst (WaitForLock c ctxErr l sched s) \<noteq> None)
   \<and> (fst (WaitForLock c ctxErr l sched s) \<noteq> None \<longrightarrow>
        WaitForLock c ctxErr l (sched @ rest) s = WaitForLock c ctxErr l sched s)
   \<and> fst (WaitForLock c ctxErr l sched s) \<in>
        {None, Some None, Some (Some (Wrapped ''timeout to acquired lock'' ctxErr))}"
proof -
  have "fst (WaitForLock c ctxErr l sched s) \<in>
        {None, Some None, Some (Some (Wrapped ''timeout to acquired lock'' ctxErr))}"
    using WaitForLock_outcomes [of c ctxErr l sched s]
    by (cases "WaitForLock c ctxErr l sched s") (cases "fst (WaitForLock c ctxErr l sched s)"; auto)
  then show ?thesis
    using WaitForLock_returns [of sched c ctxErr l s]
      WaitForLock_final [of c ctxErr l sched s rest]
    by (cases "Lock l c s") (auto split: prod.splits option.splits)
qed

theorem WaitForLock_two_outcomes_witness:
  "WaitForLock ctxP Canceled free_lock [CaseTick, CaseTick] () = (Some None, 1, ())
   \<and> WaitForLock ctxP DeadlineExceeded held_lock [CaseTick, CaseTick, CaseDone] ()
       = (Some (Some (Wrapped ''timeout to acquired lock'' DeadlineExceeded)), 2, ())
   \<and> Error (Wrapped ''timeout to acquired lock'' DeadlineExceeded)
       = ''timeout to acquired lock: context deadline exceeded''
   \<and> fst (WaitForLock ctxP DeadlineExceeded sql_iface [CaseTick, CaseDone] (handle0, storeA))
       = Some (Some (Wrapped ''timeout to acquired lock'' DeadlineExceeded))"
proof -
  obtain s1 where "Lock sql_iface ctxP (handle0, storeA) = (Some ErrAcquiredLock, s1)"
    using sql_iface_contended by (cases "Lock sql_iface ctxP (handle0, storeA)") auto
  then show ?thesis
    using WaitForLock_two_outcomes [of free_lock ctxP "()" Canceled "[CaseTick]" "[]"]
      WaitForLock_two_outcomes [of held_lock ctxP "()" DeadlineExceeded "[CaseTick, CaseDone]" "[]"]
      WaitForLock_two_outcomes [of sql_iface ctxP "(handle0, storeA)" DeadlineExceeded
        "[CaseDone]" "[]"]
    by (simp add: free_lock_def held_lock_def)
qed

text \<open>
  C10. \<^verbatim>\<open>Lock\<close> is called only in the tick case: the number of attempts is at most the
  number of ticks taken before the first Done case. Before any tick there is no attempt,
  and when the first case taken is Done the result is the timeout error with no attempt
  made and the state untouched, also for a lock that is free, whose \<^verbatim>\<open>Lock\<close> would have
  returned nil.
\<close>

theorem WaitForLock_first_attempt_after_tick:
  "fst (snd (WaitForLock c ctxErr l sched s)) \<le> length (takeWhile (\<lambda>x. x = CaseTick) sched)
   \<and> WaitForLock c ctxErr l [] s = (None, 0, s)
   \<and> WaitForLock c ctxErr l (CaseDone # sched) s
        = (Some (Some (Wrapped ''timeout to acquired lock'' ctxErr)), 0, s)
   \<and> fst (Lock free_lock c ()) = None
   \<and> WaitForLock c ctxErr free_lock (CaseDone # sched) ()
        = (Some (Some (Wrapped ''timeout to acquired lock'' ctxErr)), 0, ())"
  using WaitForLock_attempts [of c ctxErr l sched s] by (simp add: free_lock_def)

theorem WaitForLock_first_attempt_after_tick_witness:
  "WaitForLock ctxP DeadlineExceeded sql_iface [CaseDone, CaseTick] (handle0, store0)
     = (Some (Some (Wrapped ''timeout to acquired lock'' DeadlineExceeded)), 0, (handle0, store0))
   \<and> fst (Lock sql_iface ctxP (handle0, store0)) = None"
  using WaitForLock_first_attempt_after_tick [of ctxP DeadlineExceeded sql_iface
      "[CaseDone, CaseTick]" "(handle0, store0)"]
    WaitForLock_first_attempt_after_tick [of ctxP DeadlineExceeded sql_iface "[CaseTick]"
      "(handle0, store0)"]
  by (simp add: sql_iface_def scenario_ctxP)

section \<open>ContextLock and its monitor\<close>











section \<open>Cancellation\<close>











end
